theory Spec2Isabelle
  imports Complex_Main
begin

section \<open>The delta pulse generator of examples/deltaPulse.py\<close>

text \<open>
  The function \<^verbatim>\<open>sdr_delta_pulse(N, amplitude, window, center)\<close> builds a flat spectrum,
  takes its inverse discrete Fourier transform, optionally rotates it to the middle of the
  buffer, scales it to the requested amplitude, optionally multiplies it by a Hann window
  and scales it again.

  A numpy float is a \<^typ>\<open>real\<close>, a numpy complex is a \<^typ>\<open>complex\<close>, an array is a
  list, and the Python integer \<^verbatim>\<open>N\<close> is an \<^typ>\<open>int\<close>. The arithmetic between the
  casts is exact. The cast to \<^verbatim>\<open>complex64\<close> that ends the function is modelled where it
  changes a value by more than a rounding error: see \<open>to_float32\<close> below.
\<close>

subsection \<open>Outcomes\<close>

text \<open>
  \<open>ValueError\<close> is the exception numpy raises on a bad argument. numpy's array division
  does not raise on a zero divisor: it warns and stores nan or inf. The model has no such
  values, so a zero divisor is the outcome \<open>DivideByZero\<close>, which keeps the event visible
  (in HOL \<open>x / 0 = 0\<close>).
\<close>

datatype error = ValueError | DivideByZero

definition bind_res :: "error + 'a \<Rightarrow> ('a \<Rightarrow> error + 'b) \<Rightarrow> error + 'b" where
  "bind_res r f = (case r of Inl e \<Rightarrow> Inl e | Inr v \<Rightarrow> f v)"

subsection \<open>The numpy operations the function calls\<close>

text \<open>
  \<^verbatim>\<open>np.ones(N, dtype=np.complex64)\<close>: a negative dimension is rejected. The value \<open>1\<close> is
  a float32 number, so the element type changes nothing here.
\<close>

definition np_ones :: "int \<Rightarrow> error + complex list" where
  "np_ones N = (if N < 0 then Inl ValueError else Inr (replicate (nat N) 1))"

text \<open>
  \<^verbatim>\<open>np.fft.ifft(A)\<close> with the default normalisation:
  \<open>a[m] = (1/n) * sum_k A[k] * exp(2 pi i m k / n)\<close>; an input of no points is rejected
  (``Invalid number of FFT data points'').
\<close>

definition np_fft_ifft :: "complex list \<Rightarrow> error + complex list" where
  "np_fft_ifft A =
     (let n = length A in
      if n < 1 then Inl ValueError
      else Inr (map (\<lambda>m. (\<Sum>k<n. A ! k * cis (2 * pi * real m * real k / real n)) / of_nat n)
                  [0..<n]))"

text \<open>
  \<^verbatim>\<open>np.fft.fftshift(x)\<close> is \<^verbatim>\<open>np.roll(x, n // 2)\<close>: the element at index \<open>i\<close> moves to
  index \<open>(i + n // 2) mod n\<close>, so the last \<open>n // 2\<close> elements come first.
\<close>

definition np_fft_fftshift :: "'a list \<Rightarrow> 'a list" where
  "np_fft_fftshift x =
     (let n = length x; k = n - n div 2 in drop k x @ take k x)"

definition np_abs :: "complex list \<Rightarrow> real list" where
  "np_abs x = map cmod x"

text \<open>\<^verbatim>\<open>np.max\<close> of an empty array raises.\<close>

definition np_max :: "real list \<Rightarrow> error + real" where
  "np_max xs = (case xs of [] \<Rightarrow> Inl ValueError | y # ys \<Rightarrow> Inr (fold max ys y))"

text \<open>\<^verbatim>\<open>x / m\<close> for an array \<open>x\<close> and a real scalar \<open>m\<close>.\<close>

definition np_divide :: "complex list \<Rightarrow> real \<Rightarrow> error + complex list" where
  "np_divide x m = (if m = 0 then Inl DivideByZero else Inr (map (\<lambda>z. z / of_real m) x))"

text \<open>\<^verbatim>\<open>x * amplitude\<close> for an array \<open>x\<close> and a real scalar.\<close>

definition np_scale :: "complex list \<Rightarrow> real \<Rightarrow> complex list" where
  "np_scale x amplitude = map (\<lambda>z. z * of_real amplitude) x"

text \<open>
  \<^verbatim>\<open>np.hanning(M)\<close>: empty for \<open>M < 1\<close>, the single tap \<open>1\<close> for \<open>M = 1\<close>, and otherwise
  \<open>0.5 + 0.5 * cos(pi * n / (M - 1))\<close> over \<open>n = 1 - M, 3 - M, ..., M - 1\<close>.
\<close>

definition np_hanning :: "int \<Rightarrow> real list" where
  "np_hanning M =
     (if M < 1 then []
      else if M = 1 then [1]
      else map (\<lambda>i. 0.5 + 0.5 * cos (pi * (1 - real_of_int M + 2 * real i) / (real_of_int M - 1)))
             [0..<nat M])"

text \<open>
  \<^verbatim>\<open>x * w\<close> for two arrays. The function only multiplies arrays of the same shape;
  shapes that differ are rejected (broadcasting of a one-element array is not modelled).
\<close>

definition np_multiply :: "complex list \<Rightarrow> real list \<Rightarrow> error + complex list" where
  "np_multiply x w =
     (if length x \<noteq> length w then Inl ValueError
      else Inr (map (\<lambda>(z, r). z * of_real r) (zip x w)))"

subsection \<open>The cast to complex64\<close>

text \<open>
  A \<^verbatim>\<open>complex64\<close> is a pair of float32 numbers, each a sign and a magnitude. The smallest
  normal magnitude is \<open>2^-126\<close> (\<^verbatim>\<open>np.finfo(np.float32).tiny\<close>) and the largest finite one
  is \<open>(2 - 2^-23) * 2^127\<close> (\<^verbatim>\<open>np.finfo(np.float32).max\<close>).
\<close>

definition float32_tiny :: real where
  "float32_tiny = 1 / 2 ^ 126"

definition float32_max :: real where
  "float32_max = (2 - 1 / 2 ^ 23) * 2 ^ 127"

text \<open>Rounding to the nearest integer, a tie going to the even neighbour.\<close>

definition round_half_even :: "real \<Rightarrow> int" where
  "round_half_even x =
     (let f = \<lfloor>x\<rfloor> in
      if x - of_int f < 1 / 2 then f
      else if 1 / 2 < x - of_int f then f + 1
      else if even f then f else f + 1)"

text \<open>
  The cast of one component. Below \<open>float32_tiny\<close> the float32 numbers are the multiples of
  \<open>2^-149\<close>, and the cast takes the nearest one: a small enough value becomes \<open>0\<close>. From
  \<open>float32_tiny\<close> up to \<open>float32_max\<close> the cast keeps 24 significant bits, a relative change
  of at most \<open>2^-24\<close>, which the model does not represent: the value is kept. Above
  \<open>float32_max\<close> numpy stores inf (and nan where inf meets zero); the model has no such
  values and keeps the value there too, so it says nothing true of the code for such
  magnitudes. \<open>float32_range\<close> is the range of magnitudes in which the model follows the
  code up to rounding.
\<close>

definition to_float32 :: "real \<Rightarrow> real" where
  "to_float32 r =
     (if \<bar>r\<bar> < float32_tiny
      then sgn r * (of_int (round_half_even (\<bar>r\<bar> * 2 ^ 149)) / 2 ^ 149)
      else r)"

definition float32_range :: "real \<Rightarrow> bool" where
  "float32_range a \<longleftrightarrow> float32_tiny \<le> \<bar>a\<bar> \<and> \<bar>a\<bar> \<le> float32_max"

text \<open>\<^verbatim>\<open>x.astype(np.complex64)\<close>: both components of every sample are cast.\<close>

definition astype_complex64 :: "complex list \<Rightarrow> complex list" where
  "astype_complex64 x = map (\<lambda>z. Complex (to_float32 (Re z)) (to_float32 (Im z))) x"

subsection \<open>The function\<close>

text \<open>Lines 18 to 25: the spectrum of ones, its inverse transform, the optional shift.\<close>

definition centered_ifft :: "int \<Rightarrow> bool \<Rightarrow> error + complex list" where
  "centered_ifft N center =
     bind_res (np_ones N) (\<lambda>X.
     bind_res (np_fft_ifft X) (\<lambda>x.
     Inr (if center then np_fft_fftshift x else x)))"

text \<open>Line 28: \<^verbatim>\<open>x = x / np.max(np.abs(x)) * amplitude\<close>.\<close>

definition normalize :: "complex list \<Rightarrow> real \<Rightarrow> error + complex list" where
  "normalize x amplitude =
     bind_res (np_max (np_abs x)) (\<lambda>m.
     bind_res (np_divide x m) (\<lambda>y.
     Inr (np_scale y amplitude)))"

text \<open>Lines 32 to 37: the window, and the second scaling guarded by \<^verbatim>\<open>max_val > 0\<close>.\<close>

definition window_renorm :: "int \<Rightarrow> complex list \<Rightarrow> real \<Rightarrow> error + complex list" where
  "window_renorm N x amplitude =
     (let w = np_hanning N in
      bind_res (np_multiply x w) (\<lambda>x.
      bind_res (np_max (np_abs x)) (\<lambda>max_val.
      if max_val > 0
      then bind_res (np_divide x max_val) (\<lambda>y. Inr (np_scale y amplitude))
      else Inr x)))"

text \<open>The whole function; line 39 casts what it returns.\<close>

definition sdr_delta_pulse :: "int \<Rightarrow> real \<Rightarrow> bool \<Rightarrow> bool \<Rightarrow> error + complex list" where
  "sdr_delta_pulse N amplitude window center =
     bind_res (centered_ifft N center) (\<lambda>x.
     bind_res (normalize x amplitude) (\<lambda>x.
     bind_res (if window then window_renorm N x amplitude else Inr x) (\<lambda>x.
     Inr (astype_complex64 x))))"

subsection \<open>Notions used by the properties\<close>

text \<open>The sequence with \<open>v\<close> at index \<open>p\<close> and zero elsewhere.\<close>

definition spike :: "nat \<Rightarrow> nat \<Rightarrow> complex \<Rightarrow> complex list" where
  "spike n p v = (replicate n 0)[p := v]"

text \<open>The sample at index \<open>p\<close> is strictly larger in magnitude than every other sample.\<close>

definition single_peak_at :: "complex list \<Rightarrow> nat \<Rightarrow> bool" where
  "single_peak_at xs p \<longleftrightarrow>
     p < length xs \<and> (\<forall>i<length xs. i \<noteq> p \<longrightarrow> cmod (xs ! i) < cmod (xs ! p))"

text \<open>
  Where the inverse transform of the flat spectrum has its nonzero sample once the
  optional shift is done.
\<close>

definition peak_index :: "int \<Rightarrow> bool \<Rightarrow> nat" where
  "peak_index N center = (if center then nat N div 2 else 0)"

section \<open>Auxiliary facts\<close>

subsection \<open>The operations on a sequence with one nonzero sample\<close>

lemma bind_res_simps [simp]:
  "bind_res (Inl e) f = Inl e" "bind_res (Inr v) f = f v"
  by (simp_all add: bind_res_def)

lemma roots_of_unity_sum:
  assumes "0 < m" "m < n"
  shows "(\<Sum>k<n. cis (2 * pi * real m * real k / real n)) = 0"
proof -
  define z where "z = cis (2 * pi * real m / real n)"
  have zk: "cis (2 * pi * real m * real k / real n) = z ^ k" for k
    by (simp add: z_def DeMoivre algebra_simps)
  have zn: "z ^ n = 1"
    using assms by (simp add: z_def DeMoivre)
  have "z \<noteq> 1"
  proof
    assume "z = 1"
    then have "cos (2 * pi * real m / real n) = 1"
      by (simp add: z_def complex_eq_iff)
    then obtain j :: int where j: "2 * pi * real m / real n = of_int j * (2 * pi)"
      using cos_one_2pi_int by auto
    then have "(2 * pi) * (real m / real n) = (2 * pi) * of_int j" by (simp add: mult.commute)
    then have "real m / real n = of_int j" using pi_gt_zero by (simp del: times_divide_eq_right)
    then have "real m = of_int j * real n" using assms by (simp add: field_simps)
    then have "int m = j * int n" by (metis of_int_eq_iff of_int_mult of_int_of_nat_eq)
    then have "int n dvd int m" by simp
    then have "n dvd m" by presburger
    with assms show False by (auto dest: dvd_imp_le)
  qed
  then have "(\<Sum>k<n. z ^ k) = (z ^ n - 1) / (z - 1)"
    by (rule geometric_sum)
  then show ?thesis by (simp add: zk zn)
qed

lemma spike_nth: "i < n \<Longrightarrow> spike n p v ! i = (if i = p then v else 0)"
  by (simp add: spike_def nth_list_update)

lemma length_spike [simp]: "length (spike n p v) = n"
  by (simp add: spike_def)

lemma ifft_ones:
  assumes "0 < n"
  shows "np_fft_ifft (replicate n 1) = Inr (spike n 0 1)"
proof -
  have "(\<Sum>k<n. replicate n (1::complex) ! k * cis (2 * pi * real m * real k / real n)) / of_nat n
        = spike n 0 1 ! m" if "m < n" for m
  proof (cases "m = 0")
    case True
    with assms show ?thesis by (simp add: spike_nth)
  next
    case False
    then have "(\<Sum>k<n. cis (2 * pi * real m * real k / real n)) = 0"
      using that by (intro roots_of_unity_sum) auto
    with False that show ?thesis by (simp add: spike_nth)
  qed
  then have "map (\<lambda>m. (\<Sum>k<n. replicate n (1::complex) ! k * cis (2 * pi * real m * real k / real n)) / of_nat n) [0..<n]
     = spike n 0 1"
    by (intro nth_equalityI) auto
  with assms show ?thesis by (simp add: np_fft_ifft_def)
qed

lemma fftshift_spike:
  assumes "0 < n"
  shows "np_fft_fftshift (spike n 0 v) = spike n (n div 2) v"
proof (intro nth_equalityI)
  show "length (np_fft_fftshift (spike n 0 v)) = length (spike n (n div 2) v)"
    by (simp add: np_fft_fftshift_def Let_def)
next
  fix i assume "i < length (np_fft_fftshift (spike n 0 v))"
  then have i: "i < n" by (simp add: np_fft_fftshift_def Let_def)
  show "np_fft_fftshift (spike n 0 v) ! i = spike n (n div 2) v ! i"
    using i assms by (auto simp: np_fft_fftshift_def Let_def nth_append spike_nth)
qed

lemma np_max_abs_spike:
  assumes "p < n"
  shows "np_max (np_abs (spike n p v)) = Inr (cmod v)"
proof -
  let ?xs = "np_abs (spike n p v)"
  have ne: "?xs \<noteq> []" using assms by (auto simp: np_abs_def spike_def)
  then obtain y ys where yys: "?xs = y # ys" by (cases ?xs) auto
  have "fold max ys y = Max (set ?xs)"
    unfolding yys using Max.set_eq_fold[of y ys] by simp
  also have "\<dots> = cmod v"
  proof (rule Max_eqI)
    show "finite (set ?xs)" by simp
    show "cmod v \<in> set ?xs"
      using assms by (auto simp: np_abs_def spike_def set_conv_nth nth_list_update intro!: exI[of _ p])
    show "y \<le> cmod v" if "y \<in> set ?xs" for y
      using that by (auto simp: np_abs_def in_set_conv_nth spike_nth)
  qed
  finally show ?thesis by (simp add: np_max_def yys)
qed

lemma map_spike: "f 0 = 0 \<Longrightarrow> map f (spike n p v) = spike n p (f v)"
  by (simp add: spike_def map_update)

lemma centered_ifft_spike:
  assumes "1 \<le> N"
  shows "centered_ifft N center = Inr (spike (nat N) (if center then nat N div 2 else 0) 1)"
  using assms by (simp add: centered_ifft_def np_ones_def ifft_ones fftshift_spike)

lemma normalize_spike:
  assumes "p < n" "v \<noteq> 0"
  shows "normalize (spike n p v) a = Inr (spike n p (v / of_real (cmod v) * of_real a))"
  using assms by (simp add: normalize_def np_max_abs_spike np_divide_def np_scale_def map_spike)

lemma np_multiply_spike:
  assumes "p < n" "length w = n"
  shows "np_multiply (spike n p v) w = Inr (spike n p (v * of_real (w ! p)))"
proof -
  have "map (\<lambda>(z, r). z * of_real r) (zip (spike n p v) w) = spike n p (v * of_real (w ! p))"
    using assms by (intro nth_equalityI) (auto simp: spike_nth)
  with assms show ?thesis by (simp add: np_multiply_def)
qed

subsection \<open>The Hann window\<close>

lemma length_np_hanning [simp]: "length (np_hanning N) = nat N"
  by (simp add: np_hanning_def)

lemma hann_tap_nonneg: "0 \<le> 0.5 + 0.5 * cos (x::real)"
  using cos_ge_minus_one[of x] by linarith

lemma np_hanning_nonneg:
  assumes "i < nat N"
  shows "0 \<le> np_hanning N ! i"
proof (cases "N = 1")
  case True
  with assms show ?thesis by (simp add: np_hanning_def)
next
  case False
  with assms have "2 \<le> N" by simp
  with assms show ?thesis using hann_tap_nonneg by (simp add: np_hanning_def)
qed

lemma np_hanning_first:
  assumes "2 \<le> N"
  shows "np_hanning N ! 0 = 0"
proof -
  have "pi * (1 - real_of_int N) / (real_of_int N - 1) = - pi"
    using assms by (simp add: field_simps)
  with assms show ?thesis by (simp add: np_hanning_def)
qed

lemma np_hanning_one: "np_hanning 1 = [1]"
  by (simp add: np_hanning_def)

lemma np_hanning_two: "np_hanning 2 = [0, 0]"
proof -
  have "[0..<nat 2] = [0, 1]" by (simp add: upt_rec)
  then show ?thesis by (simp add: np_hanning_def)
qed

lemma np_hanning_middle:
  assumes "3 \<le> N"
  shows "0 < np_hanning N ! (nat N div 2)"
proof -
  define t where "t = (1 - real_of_int N + 2 * real (nat N div 2)) / (real_of_int N - 1)"
  have N1: "1 < real_of_int N - 1" using assms by simp
  have "int (nat N div 2) = N div 2"
    using assms by (simp add: zdiv_int)
  then have r: "real (nat N div 2) = real_of_int (N div 2)"
    by (metis of_int_of_nat_eq)
  have "2 * (N div 2) = N \<or> 2 * (N div 2) = N - 1" by presburger
  then have "real_of_int (2 * (N div 2)) = real_of_int N
           \<or> real_of_int (2 * (N div 2)) = real_of_int (N - 1)"
    by presburger
  then have num: "1 - real_of_int N + 2 * real (nat N div 2) = 1
      \<or> 1 - real_of_int N + 2 * real (nat N div 2) = 0"
    using r by auto
  have t: "0 \<le> t \<and> t < 1"
    using num N1 by (auto simp: t_def)
  have "0 \<le> pi * t" using t by simp
  moreover have "pi * t < pi" using t pi_gt_zero by simp
  ultimately have "cos pi < cos (pi * t)"
    by (intro cos_monotone_0_pi) auto
  then have "0 < 0.5 + 0.5 * cos (pi * t)" by simp
  moreover have "nat N div 2 < nat N" using assms by simp
  ultimately show ?thesis using assms by (simp add: np_hanning_def t_def)
qed

subsection \<open>The cast\<close>

lemma to_float32_zero [simp]: "to_float32 0 = 0"
  by (simp add: to_float32_def)


lemma to_float32_in_range: "float32_range r \<Longrightarrow> to_float32 r = r"
  by (simp add: float32_range_def to_float32_def)

lemma float32_range_nonzero: "float32_range r \<Longrightarrow> r \<noteq> 0"
  by (auto simp: float32_range_def float32_tiny_def)

lemma float32_range_four_fifths: "float32_range (4 / 5)"
  by (simp add: float32_range_def float32_tiny_def float32_max_def)

lemma float32_range_one: "float32_range 1"
  by (simp add: float32_range_def float32_tiny_def float32_max_def)

lemma round_half_even_small:
  assumes "0 \<le> x" "x < 1 / 2"
  shows "round_half_even x = 0"
proof -
  from assms have "\<lfloor>x\<rfloor> = 0" by (simp add: floor_eq_iff)
  with assms show ?thesis by (simp add: round_half_even_def)
qed

lemma to_float32_underflow:
  assumes "\<bar>r\<bar> < 1 / 2 ^ 150"
  shows "to_float32 r = 0"
proof -
  have "\<bar>r\<bar> * 2 ^ 149 < 1 / 2 ^ 150 * 2 ^ 149"
    using assms by (rule mult_strict_right_mono) simp
  then have "\<bar>r\<bar> * 2 ^ 149 < 1 / 2" by simp
  then have "round_half_even (\<bar>r\<bar> * 2 ^ 149) = 0"
    by (intro round_half_even_small) simp_all
  moreover have "\<bar>r\<bar> < float32_tiny"
    using assms by (simp add: float32_tiny_def)
  ultimately show ?thesis by (simp add: to_float32_def)
qed

lemma astype_spike_of_real:
  "astype_complex64 (spike n p (of_real r)) = spike n p (of_real (to_float32 r))"
proof -
  have "astype_complex64 (spike n p (of_real r))
        = spike n p (Complex (to_float32 (Re (complex_of_real r)))
                             (to_float32 (Im (complex_of_real r))))"
    unfolding astype_complex64_def by (rule map_spike) (simp add: complex_eq_iff)
  moreover have "Complex (to_float32 (Re (complex_of_real r))) (to_float32 (Im (complex_of_real r)))
        = of_real (to_float32 r)"
    by (simp add: complex_eq_iff)
  ultimately show ?thesis by simp
qed

lemma spike_zero: "spike n p 0 = replicate n 0"
  by (cases "p < n") (simp_all add: spike_def list_update_same_conv list_update_beyond)

subsection \<open>Closed forms of the function\<close>

lemma peak_index_less: "1 \<le> N \<Longrightarrow> peak_index N center < nat N"
  by (simp add: peak_index_def)

lemma window_renorm_spike:
  assumes "p < nat N"
  shows "window_renorm N (spike (nat N) p v) a =
           Inr (spike (nat N) p
             (if v * of_real (np_hanning N ! p) = 0 then 0
              else v * of_real (np_hanning N ! p)
                   / of_real (cmod (v * of_real (np_hanning N ! p))) * of_real a))"
  using assms
  by (simp add: window_renorm_def np_multiply_spike np_max_abs_spike np_divide_def
      np_scale_def map_spike)

lemma sdr_plain:
  assumes "1 \<le> N"
  shows "sdr_delta_pulse N a False center =
           Inr (spike (nat N) (peak_index N center) (of_real (to_float32 a)))"
  using assms peak_index_less[OF assms, of center]
  by (simp add: sdr_delta_pulse_def centered_ifft_spike normalize_spike peak_index_def
      astype_spike_of_real)

lemma renorm_value:
  assumes "0 \<le> h" "a * h \<noteq> 0"
  shows "complex_of_real a * of_real h / of_real (cmod (of_real a * of_real h)) * of_real a
         = of_real \<bar>a\<bar>"
proof -
  have h: "0 < h" and a: "a \<noteq> 0" using assms by (auto simp: less_le)
  have "cmod (of_real a * of_real h) = \<bar>a\<bar> * h"
    using h by (simp add: norm_mult)
  then have "complex_of_real a * of_real h / of_real (cmod (of_real a * of_real h)) * of_real a
     = of_real (a * h / (\<bar>a\<bar> * h) * a)" by simp
  also have "a * h / (\<bar>a\<bar> * h) * a = \<bar>a\<bar>"
    using h a by (simp add: field_simps abs_if)
  finally show ?thesis .
qed

lemma sdr_windowed:
  assumes "1 \<le> N"
  shows "sdr_delta_pulse N a True center =
           Inr (spike (nat N) (peak_index N center)
             (of_real (to_float32
                (if a * (np_hanning N ! peak_index N center) = 0 then 0 else \<bar>a\<bar>))))"
proof -
  let ?p = "peak_index N center"
  let ?v = "if a * (np_hanning N ! ?p) = 0 then 0 else \<bar>a\<bar>"
  have p: "?p < nat N" using assms by (rule peak_index_less)
  have h: "0 \<le> np_hanning N ! ?p" using p by (rule np_hanning_nonneg)
  have "window_renorm N (spike (nat N) ?p (of_real a)) a = Inr (spike (nat N) ?p (of_real ?v))"
    using renorm_value[OF h] by (simp add: window_renorm_spike[OF p])
  moreover have "sdr_delta_pulse N a True center =
      bind_res (window_renorm N (spike (nat N) ?p (of_real a)) a) (\<lambda>x. Inr (astype_complex64 x))"
    using assms p by (simp add: sdr_delta_pulse_def centered_ifft_spike normalize_spike peak_index_def)
  ultimately show ?thesis by (simp add: astype_spike_of_real)
qed

lemma hanning_at_peak_pos:
  assumes "1 \<le> N" "N = 1 \<or> (center \<and> N \<noteq> 2)"
  shows "0 < np_hanning N ! peak_index N center"
proof (cases "N = 1")
  case True
  then show ?thesis by (simp add: np_hanning_one peak_index_def)
next
  case False
  with assms have "3 \<le> N" "center" by auto
  then show ?thesis using np_hanning_middle by (simp add: peak_index_def)
qed

lemma spike_8_0: "spike 8 0 v = [v, 0, 0, 0, 0, 0, 0, 0]"
  by (simp add: spike_def eval_nat_numeral)

lemma spike_8_4: "spike 8 4 v = [0, 0, 0, 0, v, 0, 0, 0]"
  by (simp add: spike_def eval_nat_numeral)

lemma single_peak_spike: "p < n \<Longrightarrow> v \<noteq> 0 \<Longrightarrow> single_peak_at (spike n p v) p"
  by (simp add: single_peak_at_def spike_nth)

lemma fftshift_nth:
  assumes "i < length x"
  shows "np_fft_fftshift x ! ((i + length x div 2) mod length x) = x ! i"
proof -
  let ?n = "length x"
  let ?k = "?n - ?n div 2"
  show ?thesis
  proof (cases "i < ?k")
    case True
    then have "(i + ?n div 2) mod ?n = i + ?n div 2" by simp
    moreover have "\<not> i + ?n div 2 < ?n div 2 \<or> ?n div 2 = 0" by simp
    ultimately show ?thesis using True assms
      by (auto simp: np_fft_fftshift_def Let_def nth_append)
  next
    case False
    then have ge: "?n \<le> i + ?n div 2" by arith
    have lt: "i + ?n div 2 - ?n < ?n" using assms by arith
    have "(i + ?n div 2) mod ?n = (i + ?n div 2 - ?n) mod ?n"
      using ge by (simp add: le_mod_geq)
    also have "\<dots> = i + ?n div 2 - ?n" using lt by simp
    also have "\<dots> = i - ?k" using ge by arith
    finally have "(i + ?n div 2) mod ?n = i - ?k" .
    then show ?thesis using False assms
      by (auto simp: np_fft_fftshift_def Let_def nth_append)
  qed
qed

section \<open>Properties of the function\<close>

text \<open>
  Claim C1, as amended. For a length of at least one and a positive amplitude within the
  float32 range, the largest sample magnitude of the returned sequence equals the amplitude
  (up to the rounding of the cast, which the model does not represent) whenever the window
  is off, or the length is one, or the pulse is centred and the length is not two.
\<close>

theorem peak_equals_amplitude:
  assumes "1 \<le> N" "0 < a" "float32_range a"
    and "\<not> window \<or> N = 1 \<or> (center \<and> N \<noteq> 2)"
  shows "\<exists>x. sdr_delta_pulse N a window center = Inr x \<and> np_max (np_abs x) = Inr a"
proof (cases window)
  case False
  then show ?thesis
    using assms peak_index_less[OF assms(1), of center]
    by (simp add: sdr_plain np_max_abs_spike to_float32_in_range)
next
  case True
  with assms have "0 < np_hanning N ! peak_index N center"
    by (intro hanning_at_peak_pos) auto
  with True show ?thesis
    using assms peak_index_less[OF assms(1), of center]
    by (simp add: sdr_windowed np_max_abs_spike to_float32_in_range)
qed

theorem peak_equals_amplitude_witness:
  "(1::int) \<le> 8 \<and> (0::real) < 4 / 5 \<and> float32_range (4 / 5) \<and>
   (\<exists>x. sdr_delta_pulse 8 (4 / 5) True True = Inr x \<and> np_max (np_abs x) = Inr (4 / 5))"
  using peak_equals_amplitude[of 8 "4 / 5" True True] float32_range_four_fifths by simp

text \<open>
  Claim C1 as stated fails twice. With length 2, amplitude 1, window and centring on, both
  Hann taps are zero, the guard \<^verbatim>\<open>max_val > 0\<close> skips the second scaling, and the largest
  magnitude of the result is 0, not 1. And with length 8 and the amplitude \<open>10^-50\<close>, which
  is below every float32 number but zero, the cast of line 39 returns zeros, so the
  largest magnitude is 0 again.
\<close>

theorem windowed_length_two_is_silent:
  "sdr_delta_pulse 2 1 True True = Inr [0, 0] \<and> np_max (np_abs [0, 0]) = Inr 0 \<and>
   sdr_delta_pulse 8 (1 / 10 ^ 50) False True = Inr [0, 0, 0, 0, 0, 0, 0, 0] \<and>
   np_max (np_abs [0, 0, 0, 0, 0, 0, 0, 0]) = Inr 0"
proof -
  have "spike 2 (Suc 0) 0 = [0, 0]" by (simp add: spike_def numeral_2_eq_2)
  then have "sdr_delta_pulse 2 1 True True = Inr [0, 0]"
    by (simp add: sdr_windowed np_hanning_two peak_index_def)
  moreover have "sdr_delta_pulse 8 (1 / 10 ^ 50) False True = Inr [0, 0, 0, 0, 0, 0, 0, 0]"
    by (simp add: sdr_plain peak_index_def to_float32_underflow spike_8_4)
  ultimately show ?thesis by (simp add: np_max_def np_abs_def)
qed

text \<open>
  Claim C2. For every length below one, whatever the amplitude and the flags, the call ends
  in \<open>ValueError\<close>: it is raised while the spectrum is built or transformed (the first
  stage), before any scaling or windowing, and no sequence is returned.
\<close>

theorem nonpositive_length_rejected:
  assumes "N < 1"
  shows "centered_ifft N center = Inl ValueError \<and>
         sdr_delta_pulse N a window center = Inl ValueError"
proof -
  have "centered_ifft N center = Inl ValueError"
  proof (cases "N < 0")
    case True
    then show ?thesis by (simp add: centered_ifft_def np_ones_def)
  next
    case False
    with assms have "N = 0" by simp
    then show ?thesis by (simp add: centered_ifft_def np_ones_def np_fft_ifft_def)
  qed
  then show ?thesis by (simp add: sdr_delta_pulse_def)
qed

theorem nonpositive_length_rejected_witness:
  "(0::int) < 1 \<and> centered_ifft 0 True = Inl ValueError \<and>
   sdr_delta_pulse 0 (4 / 5) True True = Inl ValueError"
  using nonpositive_length_rejected[of 0 True "4 / 5" True] by simp

text \<open>
  Claim C3, as amended. With length 8, amplitude 1, no window and no centring the result is
  the unit impulse: sample 0 is \<open>1 + 0i\<close> and the seven other samples are zero.
\<close>

theorem length_eight_is_impulse:
  "sdr_delta_pulse 8 1 False False = Inr [1, 0, 0, 0, 0, 0, 0, 0]"
  by (simp add: sdr_plain peak_index_def spike_8_0 to_float32_in_range float32_range_one)

text \<open>
  Claim C3 as stated fails: with length 8, amplitude 1, no window and no centring the result
  is not the constant sequence of ones.
\<close>

theorem length_eight_not_constant:
  "sdr_delta_pulse 8 1 False False \<noteq> Inr (replicate 8 1)"
proof -
  have "replicate 8 (1::complex) = [1, 1, 1, 1, 1, 1, 1, 1]" by (simp add: eval_nat_numeral)
  then show ?thesis
    by (simp add: sdr_plain peak_index_def spike_8_0 to_float32_in_range float32_range_one)
qed

text \<open>
  Claim C4, as amended. For a length of at least one, with centring on, the transformed
  sequence is rotated by \<open>length div 2\<close> places (the sample at index \<open>i\<close> moves to index
  \<open>(i + length div 2) mod length\<close>); and when the magnitude of the amplitude is within the
  float32 range and the window is off or the length is not two, the sample at index
  \<open>length div 2\<close> of the result is strictly larger in magnitude than every other sample.
\<close>

theorem centered_peak_at_middle:
  assumes "1 \<le> N" "float32_range a" "\<not> window \<or> N \<noteq> 2"
  shows "\<exists>x r. centered_ifft N False = Inr x \<and>
           centered_ifft N True = Inr (np_fft_fftshift x) \<and>
           (\<forall>i<length x. np_fft_fftshift x ! ((i + length x div 2) mod length x) = x ! i) \<and>
           sdr_delta_pulse N a window True = Inr r \<and>
           single_peak_at r (nat N div 2)"
proof -
  have p: "nat N div 2 < nat N" using assms by simp
  have n: "0 < nat N" using assms by simp
  have a: "a \<noteq> 0" "to_float32 a = a" "to_float32 \<bar>a\<bar> = \<bar>a\<bar>"
    using assms(2) by (simp_all add: float32_range_nonzero to_float32_in_range float32_range_def)
  have shift: "centered_ifft N True = Inr (np_fft_fftshift (spike (nat N) 0 1))"
    using assms n by (simp add: centered_ifft_spike fftshift_spike)
  have "\<exists>r. sdr_delta_pulse N a window True = Inr r \<and> single_peak_at r (nat N div 2)"
  proof (cases window)
    case False
    then show ?thesis using assms p a
      by (simp add: sdr_plain peak_index_def single_peak_spike)
  next
    case True
    with assms have "0 < np_hanning N ! peak_index N True"
      by (intro hanning_at_peak_pos) auto
    with True show ?thesis using assms p a
      by (simp add: sdr_windowed peak_index_def single_peak_spike)
  qed
  then show ?thesis
    using assms shift by (auto simp: centered_ifft_spike fftshift_nth)
qed

theorem centered_peak_at_middle_witness:
  "(1::int) \<le> 8 \<and> float32_range (4 / 5) \<and>
   (\<exists>x r. centered_ifft 8 False = Inr x \<and>
           centered_ifft 8 True = Inr (np_fft_fftshift x) \<and>
           (\<forall>i<length x. np_fft_fftshift x ! ((i + length x div 2) mod length x) = x ! i) \<and>
           sdr_delta_pulse 8 (4 / 5) True True = Inr r \<and>
           single_peak_at r (nat 8 div 2))"
  using centered_peak_at_middle[of 8 "4 / 5" True] float32_range_four_fifths by simp

text \<open>
  Claim C4 as stated fails twice. With length 2, amplitude 0.8, window and centring on, the
  result is all zero, so no sample at index \<open>2 div 2\<close> is larger than the others. And with
  length 8, window and centring on, and the amplitude \<open>10^-50\<close>, which is below every
  float32 number but zero, the cast of line 39 returns zeros, so no sample at index
  \<open>8 div 2\<close> is larger than the others.
\<close>

theorem centered_peak_missing:
  "sdr_delta_pulse 2 (4 / 5) True True = Inr [0, 0] \<and> \<not> single_peak_at [0, 0] (2 div 2) \<and>
   sdr_delta_pulse 8 (1 / 10 ^ 50) True True = Inr [0, 0, 0, 0, 0, 0, 0, 0] \<and>
   \<not> single_peak_at [0, 0, 0, 0, 0, 0, 0, 0] (8 div 2)"
proof -
  have "spike 2 (Suc 0) 0 = [0, 0]" by (simp add: spike_def numeral_2_eq_2)
  then have "sdr_delta_pulse 2 (4 / 5) True True = Inr [0, 0]"
    by (simp add: sdr_windowed np_hanning_two peak_index_def)
  moreover have "\<not> single_peak_at [0, 0] (2 div 2)"
    by (auto simp: single_peak_at_def intro: exI[of _ 0])
  moreover have "sdr_delta_pulse 8 (1 / 10 ^ 50) True True = Inr [0, 0, 0, 0, 0, 0, 0, 0]"
    by (simp add: sdr_windowed peak_index_def to_float32_underflow spike_8_4)
  moreover have "\<not> single_peak_at [0, 0, 0, 0, 0, 0, 0, 0] (8 div 2)"
    by (auto simp: single_peak_at_def intro: exI[of _ 0])
  ultimately show ?thesis by blast
qed

text \<open>
  Claim C5. For every length of at least one, whatever the amplitude and the flags, the call
  returns a sequence of exactly that many samples.
\<close>

theorem result_has_requested_length:
  assumes "1 \<le> N"
  shows "\<exists>x. sdr_delta_pulse N a window center = Inr x \<and> int (length x) = N"
  using assms by (cases window) (simp_all add: sdr_plain sdr_windowed)

theorem result_has_requested_length_witness:
  "(1::int) \<le> 8 \<and> (\<exists>x. sdr_delta_pulse 8 (4 / 5) True True = Inr x \<and> int (length x) = 8)"
  using result_has_requested_length[of 8 "4 / 5" True True] by simp

text \<open>
  Claim C6. For every length of at least one and both flags, amplitude 0 returns a sequence
  (so no division by zero happened) of the requested length in which every sample has
  magnitude 0.
\<close>

theorem zero_amplitude_is_silent:
  assumes "1 \<le> N"
  shows "\<exists>x. sdr_delta_pulse N 0 window center = Inr x \<and> int (length x) = N \<and>
           (\<forall>z\<in>set x. cmod z = 0)"
  using assms by (cases window) (simp_all add: sdr_plain sdr_windowed spike_zero)

theorem zero_amplitude_is_silent_witness:
  "(1::int) \<le> 8 \<and> (\<exists>x. sdr_delta_pulse 8 0 True True = Inr x \<and> int (length x) = 8 \<and>
           (\<forall>z\<in>set x. cmod z = 0))"
  using zero_amplitude_is_silent[of 8 True True] by simp

text \<open>
  Claim C7. With length 1 and amplitude 0.8 the call returns a one-element sequence whose
  element has magnitude 0.8, for every setting of the two flags; in particular it does not
  end in a division by zero.
\<close>

theorem single_sample_pulse:
  "\<exists>z. sdr_delta_pulse 1 (4 / 5) window center = Inr [z] \<and> cmod z = 4 / 5"
proof -
  have one: "spike (Suc 0) 0 v = [v]" for v by (simp add: spike_def)
  have "sdr_delta_pulse 1 (4 / 5) window center = Inr [complex_of_real (4 / 5)]"
    by (cases window)
      (simp_all add: sdr_plain sdr_windowed np_hanning_one peak_index_def one
        to_float32_in_range float32_range_four_fifths)
  moreover have "cmod (complex_of_real (4 / 5)) = 4 / 5"
    by (simp only: norm_of_real)
  ultimately show ?thesis by blast
qed

text \<open>
  Claim C8. For every length of at least one, the largest magnitude of the transformed and
  possibly shifted sequence, by which the first scaling divides, is strictly positive; the
  second scaling never divides by zero and is skipped, leaving the windowed sequence as it
  is, when its largest magnitude is zero; so the call never ends in a division by zero.
\<close>

theorem normalization_never_divides_by_zero:
  assumes "1 \<le> N"
  shows "(\<exists>x m. centered_ifft N center = Inr x \<and> np_max (np_abs x) = Inr m \<and> 0 < m) \<and>
         (\<forall>y. window_renorm N y a \<noteq> Inl DivideByZero) \<and>
         (\<forall>y z. np_multiply y (np_hanning N) = Inr z \<and> np_max (np_abs z) = Inr 0
                \<longrightarrow> window_renorm N y a = Inr z) \<and>
         sdr_delta_pulse N a window center \<noteq> Inl DivideByZero"
proof (intro conjI allI impI)
  show "\<exists>x m. centered_ifft N center = Inr x \<and> np_max (np_abs x) = Inr m \<and> 0 < m"
    using assms peak_index_less[OF assms, of center]
    by (simp add: centered_ifft_spike np_max_abs_spike peak_index_def)
next
  fix y
  show "window_renorm N y a \<noteq> Inl DivideByZero"
    by (auto simp: window_renorm_def Let_def bind_res_def np_multiply_def np_max_def
        np_divide_def split: sum.splits list.splits if_splits)
next
  fix y z
  assume "np_multiply y (np_hanning N) = Inr z \<and> np_max (np_abs z) = Inr 0"
  then show "window_renorm N y a = Inr z"
    by (simp add: window_renorm_def)
next
  show "sdr_delta_pulse N a window center \<noteq> Inl DivideByZero"
    using assms by (cases window) (simp_all add: sdr_plain sdr_windowed)
qed

theorem normalization_never_divides_by_zero_witness:
  "(1::int) \<le> 2 \<and>
   (\<exists>x m. centered_ifft 2 True = Inr x \<and> np_max (np_abs x) = Inr m \<and> 0 < m) \<and>
   np_multiply [0, 4 / 5] (np_hanning 2) = Inr [0, 0] \<and>
   np_max (np_abs [0, 0]) = Inr 0 \<and>
   window_renorm 2 [0, 4 / 5] (4 / 5) = Inr [0, 0] \<and>
   window_renorm 2 [0, 4 / 5] (4 / 5) \<noteq> Inl DivideByZero \<and>
   sdr_delta_pulse 2 (4 / 5) True True \<noteq> Inl DivideByZero"
proof -
  have le: "(1::int) \<le> 2" by simp
  have mult: "np_multiply [0, 4 / 5] (np_hanning 2) = Inr [0, 0]"
    by (simp add: np_multiply_def np_hanning_two)
  have mx: "np_max (np_abs [0, 0]) = Inr 0"
    by (simp add: np_max_def np_abs_def)
  note inst = normalization_never_divides_by_zero[OF le, of True "4 / 5" True]
  from inst mult mx have "window_renorm 2 [0, 4 / 5] (4 / 5) = Inr [0, 0]" by blast
  with inst mult mx show ?thesis by simp
qed




text \<open>
  Claim C10, as amended. For every length of at least one and every positive amplitude
  within the float32 range, without window and without centring the sample at index 0 of
  the result is strictly larger in magnitude than every other sample.
\<close>

theorem plain_peak_at_start:
  assumes "1 \<le> N" "0 < a" "float32_range a"
  shows "\<exists>x. sdr_delta_pulse N a False False = Inr x \<and> single_peak_at x 0"
  using assms
  by (simp add: sdr_plain peak_index_def single_peak_spike to_float32_in_range)

theorem plain_peak_at_start_witness:
  "(1::int) \<le> 8 \<and> (0::real) < 4 / 5 \<and> float32_range (4 / 5) \<and>
   (\<exists>x. sdr_delta_pulse 8 (4 / 5) False False = Inr x \<and> single_peak_at x 0)"
  using plain_peak_at_start[of 8 "4 / 5"] float32_range_four_fifths by simp

text \<open>
  Claim C10 as stated fails: the amplitude \<open>10^-50\<close> is positive but below every float32
  number but zero, so with length 8, no window and no centring the cast of line 39 returns
  zeros, and the sample at index 0 is not larger than the others.
\<close>

theorem plain_peak_lost_to_underflow:
  "sdr_delta_pulse 8 (1 / 10 ^ 50) False False = Inr [0, 0, 0, 0, 0, 0, 0, 0] \<and>
   \<not> single_peak_at [0, 0, 0, 0, 0, 0, 0, 0] 0"
proof -
  have "sdr_delta_pulse 8 (1 / 10 ^ 50) False False = Inr [0, 0, 0, 0, 0, 0, 0, 0]"
    by (simp add: sdr_plain peak_index_def to_float32_underflow spike_8_0)
  moreover have "\<not> single_peak_at [0, 0, 0, 0, 0, 0, 0, 0] 0"
    by (auto simp: single_peak_at_def intro: exI[of _ 1])
  ultimately show ?thesis by blast
qed

end
